theory Spec2Isabelle
  imports Main
begin

section \<open>Data model of the schedule store\<close>

text \<open>
  The worker (\<^verbatim>\<open>src/worker/worker.py\<close>) and the backend (\<^verbatim>\<open>src/backend/app.py\<close>)
  share one JSON file, \<^verbatim>\<open>data/files.json\<close>, holding an array of dictionaries. Both
  programs read keys with \<^verbatim>\<open>file.get(k, default)\<close>, test \<^verbatim>\<open>k in file\<close> or index
  \<^verbatim>\<open>file[k]\<close> inside a \<^verbatim>\<open>try\<close>, so every key of an entry is optional here:
  \<open>None\<close> is an absent key. A present key carries a value of the JSON type that
  \<^verbatim>\<open>upload_file\<close> writes for it.

  An instant is a count of microseconds since 0001-01-01T00:00:00 on the Moscow
  wall clock (a fixed UTC+3 offset), the resolution of Python's \<^verbatim>\<open>datetime\<close>.
  A time-valued key holds \<^verbatim>\<open>null\<close>, the \<^verbatim>\<open>isoformat()\<close> text of an instant, or
  some other text, which \<^verbatim>\<open>datetime.fromisoformat\<close> rejects.
\<close>

type_synonym instant = int

datatype exc =
    KeyError string
  | ValueError
  | TypeError
  | AttributeError
  | OverflowError
  | OSError
  | FileNotFoundError
  | JSONDecodeError

datatype jstamp = Null | Text string | Iso instant

record backup_record =
  bk_time :: instant
  bk_filename :: string
  bk_date :: string

record entry =
  id' :: "int option"
  filename :: "string option"
  path :: "string option"
  upload_date :: "jstamp option"
  period_value :: "int option"
  period_unit :: "string option"
  next_backup :: "jstamp option"
  last_backup :: "jstamp option"
  backup_count :: "int option"
  backups_history :: "backup_record list option"

text \<open>An element of the stored array is a dictionary or some other JSON value.\<close>

datatype item = Obj entry | NonObj

text \<open>
  The store file is absent, holds text that \<^verbatim>\<open>json.load\<close> rejects (kept as it
  is), or holds a JSON array. A store whose document is not an array is not covered.
\<close>

datatype store_file = Missing | Corrupt string | Parsed "item list"

datatype io_op =
    Makedirs string
  | Copy2 string string
  | Write_file string
  | Remove string

text \<open>
  The lines of \<^verbatim>\<open>logs/worker.log\<close> and \<^verbatim>\<open>logs/app.log\<close>, by kind and without their
  time stamp; an exception stands for its message.
\<close>

datatype worker_msg =
    Worker_started
  | Backup_created string
  | File_not_found string
  | Entry_error string exc
  | Tick_error exc

datatype app_msg =
    Uploaded string int string
  | Upload_error exc
  | Deleted string
  | Delete_error exc

text \<open>
  The world outside the two programs: the store file, the regular files under
  \<^verbatim>\<open>uploads/\<close> and \<^verbatim>\<open>backups/\<close> (path to content), the two log files as lists of
  messages, and \<open>io_fault\<close>, which tells for each file-system call whether it raises
  \<^verbatim>\<open>OSError\<close>. Two fields record what was done: \<open>copies\<close> lists the completed
  \<^verbatim>\<open>shutil.copy2\<close> calls as (source, destination), \<open>saves\<close> counts the times the store
  file was opened for writing and dumped. The log files and the store are taken to be
  writable, and no path in \<open>fs\<close> names the store or a log.
\<close>

record world =
  store :: store_file
  fs :: "string \<Rightarrow> string option"
  worker_log :: "worker_msg list"
  app_log :: "app_msg list"
  copies :: "(string \<times> string) list"
  saves :: nat
  io_fault :: "io_op \<Rightarrow> bool"

section \<open>Time: \<^verbatim>\<open>datetime\<close>, \<^verbatim>\<open>timedelta\<close>, \<^verbatim>\<open>strftime\<close>\<close>

definition us_per_second :: int where "us_per_second = 1000000"
definition us_per_minute :: int where "us_per_minute = 60000000"
definition us_per_hour :: int where "us_per_hour = 3600000000"
definition us_per_day :: int where "us_per_day = 86400000000"

text \<open>\<^verbatim>\<open>datetime.max\<close> is 9999-12-31T23:59:59.999999, day 3652059 of the calendar.\<close>

definition datetime_end :: int where
  "datetime_end = 3652059 * us_per_day"

text \<open>
  \<^verbatim>\<open>timedelta(...)\<close> raises \<^verbatim>\<open>OverflowError\<close> when the normalised number of days
  leaves \<open>[-999999999, 999999999]\<close>.
\<close>

definition timedelta :: "int \<Rightarrow> exc + int" where
  "timedelta us =
     (if - 999999999 \<le> us div us_per_day \<and> us div us_per_day \<le> 999999999
      then Inr us else Inl OverflowError)"

text \<open>
  \<^verbatim>\<open>current_time + delta\<close> raises \<^verbatim>\<open>OverflowError\<close> when the sum leaves the years
  1 to 9999.
\<close>

definition add_datetime :: "instant \<Rightarrow> int \<Rightarrow> exc + instant" where
  "add_datetime t d =
     (if 0 \<le> t + d \<and> t + d < datetime_end then Inr (t + d) else Inl OverflowError)"

text \<open>
  The \<^verbatim>\<open>if/elif\<close> chain on \<^verbatim>\<open>period_unit\<close> (worker.py lines 85 to 94, the same text
  as app.py lines 95 to 104).
\<close>

definition next_time :: "instant \<Rightarrow> int \<Rightarrow> string \<Rightarrow> exc + instant" where
  "next_time current_time pv pu =
     (if pu = ''seconds'' then
        (case timedelta (pv * us_per_second) of Inl e \<Rightarrow> Inl e | Inr d \<Rightarrow> add_datetime current_time d)
      else if pu = ''minutes'' then
        (case timedelta (pv * us_per_minute) of Inl e \<Rightarrow> Inl e | Inr d \<Rightarrow> add_datetime current_time d)
      else if pu = ''hours'' then
        (case timedelta (pv * us_per_hour) of Inl e \<Rightarrow> Inl e | Inr d \<Rightarrow> add_datetime current_time d)
      else if pu = ''days'' then
        (case timedelta (pv * us_per_day) of Inl e \<Rightarrow> Inl e | Inr d \<Rightarrow> add_datetime current_time d)
      else
        (case timedelta (1 * us_per_hour) of Inl e \<Rightarrow> Inl e | Inr d \<Rightarrow> add_datetime current_time d))"

text \<open>The calendar date of a day number, as \<^verbatim>\<open>datetime\<close> computes it (\<^verbatim>\<open>_ord2ymd\<close>).\<close>

definition days_before_month :: "int \<Rightarrow> int" where
  "days_before_month m = [0, 0, 31, 59, 90, 120, 151, 181, 212, 243, 273, 304, 334] ! nat m"

definition days_in_month :: "int \<Rightarrow> int" where
  "days_in_month m = [0, 31, 28, 31, 30, 31, 30, 31, 31, 30, 31, 30, 31] ! nat m"

definition ord2ymd :: "int \<Rightarrow> int \<times> int \<times> int" where
  "ord2ymd ordinal =
     (let n0 = ordinal - 1;
          n400 = n0 div 146097; n1' = n0 mod 146097;
          n100 = n1' div 36524; n2 = n1' mod 36524;
          n4 = n2 div 1461; n3 = n2 mod 1461;
          n1 = n3 div 365; n = n3 mod 365;
          year = n400 * 400 + 1 + n100 * 100 + n4 * 4 + n1
      in if n1 = 4 \<or> n100 = 4 then (year - 1, 12, 31)
         else
           let leapyear = (n1 = 3 \<and> (n4 \<noteq> 24 \<or> n100 = 3));
               month = (n + 50) div 32;
               preceding = days_before_month month + (if month > 2 \<and> leapyear then 1 else 0)
           in if preceding > n
              then (year, month - 1,
                    n - (preceding - (days_in_month (month - 1)
                                      + (if month - 1 = 2 \<and> leapyear then 1 else 0))) + 1)
              else (year, month, n - preceding + 1))"

definition digit :: "int \<Rightarrow> char" where
  "digit d = ''0123456789'' ! nat d"

definition pad2 :: "int \<Rightarrow> string" where
  "pad2 n = [digit (n div 10 mod 10), digit (n mod 10)]"

definition pad4 :: "int \<Rightarrow> string" where
  "pad4 n = [digit (n div 1000 mod 10), digit (n div 100 mod 10),
             digit (n div 10 mod 10), digit (n mod 10)]"

text \<open>\<^verbatim>\<open>current_time.strftime("%Y-%m-%d")\<close> and \<^verbatim>\<open>current_time.strftime("%H-%M-%S")\<close>.\<close>

definition strftime_date :: "instant \<Rightarrow> string" where
  "strftime_date t =
     (case ord2ymd (t div us_per_day + 1) of
        (y, m, d) \<Rightarrow> pad4 y @ ''-'' @ pad2 m @ ''-'' @ pad2 d)"

definition strftime_time :: "instant \<Rightarrow> string" where
  "strftime_time t =
     (let s = (t mod us_per_day) div us_per_second
      in pad2 (s div 3600) @ ''-'' @ pad2 (s div 60 mod 60) @ ''-'' @ pad2 (s mod 60))"

section \<open>\<^verbatim>\<open>os.path.splitext\<close>\<close>

text \<open>\<^verbatim>\<open>p.rfind(c)\<close>: the last index of \<open>c\<close>, or \<open>-1\<close>.\<close>

definition rfind :: "char \<Rightarrow> string \<Rightarrow> int" where
  "rfind c p =
     (if c \<in> set p
      then int (length p) - 1 - int (length (takeWhile (\<lambda>x. x \<noteq> c) (rev p)))
      else - 1)"

text \<open>
  The extension starts at the last dot, when that dot comes after the last slash
  and some character between the two is not a dot (leading dots belong to the stem).
\<close>

definition splitext :: "string \<Rightarrow> string \<times> string" where
  "splitext p =
     (let sepIndex = rfind CHR ''/'' p;
          dotIndex = rfind CHR ''.'' p
      in if dotIndex > sepIndex \<and>
            filter (\<lambda>c. c \<noteq> CHR ''.'')
              (take (nat (dotIndex - (sepIndex + 1))) (drop (nat (sepIndex + 1)) p)) \<noteq> []
         then (take (nat dotIndex) p, drop (nat dotIndex) p)
         else (p, []))"

section \<open>The worker: \<^verbatim>\<open>check_backups\<close>\<close>

definition log_message :: "worker_msg \<Rightarrow> world \<Rightarrow> world" where
  "log_message m w = w\<lparr>worker_log := worker_log w @ [m]\<rparr>"

definition os_path_exists :: "world \<Rightarrow> string \<Rightarrow> bool" where
  "os_path_exists w p = (fs w p \<noteq> None)"

text \<open>Python's truth value of \<^verbatim>\<open>file.get("next_backup")\<close> (line 42).\<close>

fun truthy :: "jstamp option \<Rightarrow> bool" where
  "truthy None = False"
| "truthy (Some Null) = False"
| "truthy (Some (Text s)) = (s \<noteq> [])"
| "truthy (Some (Iso t)) = True"

text \<open>\<^verbatim>\<open>datetime.fromisoformat(file["next_backup"]).astimezone(MOSCOW_TZ)\<close> (line 46).\<close>

fun fromisoformat :: "jstamp option \<Rightarrow> exc + instant" where
  "fromisoformat None = Inl (KeyError ''next_backup'')"
| "fromisoformat (Some Null) = Inl TypeError"
| "fromisoformat (Some (Text s)) = Inl ValueError"
| "fromisoformat (Some (Iso t)) = Inr t"

text \<open>\<^verbatim>\<open>file.get("backup_count", 0)\<close> and the history list, created empty when absent.\<close>

definition get_backup_count :: "entry \<Rightarrow> int" where
  "get_backup_count file = (case backup_count file of None \<Rightarrow> 0 | Some c \<Rightarrow> c)"

definition get_history :: "entry \<Rightarrow> backup_record list" where
  "get_history file = (case backups_history file of None \<Rightarrow> [] | Some h \<Rightarrow> h)"

definition get_period_value :: "entry \<Rightarrow> int" where
  "get_period_value file = (case period_value file of None \<Rightarrow> 1 | Some v \<Rightarrow> v)"

definition get_period_unit :: "entry \<Rightarrow> string" where
  "get_period_unit file = (case period_unit file of None \<Rightarrow> ''hours'' | Some u \<Rightarrow> u)"

text \<open>The name and the destination of the archive (lines 55 to 64).\<close>

definition backup_dir :: "instant \<Rightarrow> string" where
  "backup_dir current_time = ''backups/'' @ strftime_date current_time"

definition backup_name :: "instant \<Rightarrow> string \<Rightarrow> string" where
  "backup_name current_time fname =
     (case splitext fname of
        (original_name, extension) \<Rightarrow>
          original_name @ ''_'' @ strftime_time current_time @ extension)"

definition backup_dst :: "instant \<Rightarrow> string \<Rightarrow> string" where
  "backup_dst current_time fname =
     backup_dir current_time @ ''/'' @ backup_name current_time fname"

text \<open>What one pass of the loop body did with an entry.\<close>

datatype outcome = Skipped | Not_due | Backed | Missing_source | Failed exc

text \<open>
  Lines 68 to 79: the statistics and the history are written into the dictionary
  as soon as the copy has returned.
\<close>

definition record_backup :: "instant \<Rightarrow> string \<Rightarrow> entry \<Rightarrow> entry" where
  "record_backup current_time fname file =
     file\<lparr>last_backup := Some (Iso current_time),
          backup_count := Some (get_backup_count file + 1),
          backups_history := Some (get_history file @
             [\<lparr>bk_time = current_time,
               bk_filename = backup_name current_time fname,
               bk_date = strftime_date current_time\<rparr>])\<rparr>"

text \<open>
  \<^verbatim>\<open>shutil.copy2(src, dst)\<close> once it has returned: \<open>dst\<close> holds the bytes of
  \<open>src\<close>, and the call is listed.
\<close>

definition copy2 :: "string \<Rightarrow> string \<Rightarrow> world \<Rightarrow> world" where
  "copy2 src dst w = w\<lparr>fs := (fs w)(dst := fs w src), copies := copies w @ [(src, dst)]\<rparr>"

text \<open>
  Lines 54 to 99, run when the source file exists. The result carries the
  dictionary and the world as they are when the block ends or raises.
\<close>

definition backup_file ::
  "instant \<Rightarrow> world \<Rightarrow> entry \<Rightarrow> string \<Rightarrow> string \<Rightarrow> (exc + outcome) \<times> entry \<times> world" where
  "backup_file current_time w file file_path fname =
     (if io_fault w (Makedirs (backup_dir current_time)) then (Inl OSError, file, w)
      else if io_fault w (Copy2 file_path (backup_dst current_time fname))
      then (Inl OSError, file, w)
      else
        (let w1 = copy2 file_path (backup_dst current_time fname) w;
             file1 = record_backup current_time fname file
         in (case next_time current_time (get_period_value file1) (get_period_unit file1) of
               Inl e \<Rightarrow> (Inl e, file1, w1)
             | Inr t \<Rightarrow>
                 (Inr Backed, file1\<lparr>next_backup := Some (Iso t)\<rparr>,
                  log_message (Backup_created fname) w1))))"

text \<open>Lines 46 to 101, the body of the inner \<^verbatim>\<open>try\<close>.\<close>

definition try_file ::
  "instant \<Rightarrow> world \<Rightarrow> entry \<Rightarrow> (exc + outcome) \<times> entry \<times> world" where
  "try_file current_time w file =
     (case fromisoformat (next_backup file) of
        Inl e \<Rightarrow> (Inl e, file, w)
      | Inr nb \<Rightarrow>
          if current_time \<ge> nb then
            (case path file of
               None \<Rightarrow> (Inl (KeyError ''path''), file, w)
             | Some file_path \<Rightarrow>
                 (case filename file of
                    None \<Rightarrow> (Inl (KeyError ''filename''), file, w)
                  | Some fname \<Rightarrow>
                      if os_path_exists w file_path
                      then backup_file current_time w file file_path fname
                      else (Inr Missing_source, file, log_message (File_not_found fname) w)))
          else (Inr Not_due, file, w))"

text \<open>\<^verbatim>\<open>file.get('filename', 'unknown')\<close> in the handler's message (line 104).\<close>

definition name_of :: "entry \<Rightarrow> string" where
  "name_of file = (case filename file of None \<Rightarrow> ''unknown'' | Some n \<Rightarrow> n)"

text \<open>
  Lines 42 to 105, one pass of the loop body over a dictionary: the guard, the
  \<^verbatim>\<open>try\<close> and its handler, which logs and goes on to the next entry.
\<close>

definition process_file :: "instant \<Rightarrow> world \<Rightarrow> entry \<Rightarrow> outcome \<times> entry \<times> world" where
  "process_file current_time w file =
     (if \<not> truthy (next_backup file) then (Skipped, file, w)
      else
        (case try_file current_time w file of
           (Inl e, file', w') \<Rightarrow>
             (Failed e, file', log_message (Entry_error (name_of file') e) w')
         | (Inr oc, file', w') \<Rightarrow> (oc, file', w')))"

text \<open>
  The \<^verbatim>\<open>for\<close> loop (lines 40 to 105). An element that is no dictionary makes
  \<^verbatim>\<open>file.get\<close> on line 42 raise outside the inner \<^verbatim>\<open>try\<close>, which ends the loop. The
  result lists, in order, each element as the loop left it with the outcome of its
  pass; \<open>updated\<close> is the flag of lines 37 and 99.
\<close>

fun for_files ::
  "instant \<Rightarrow> item list \<Rightarrow> bool \<Rightarrow> world \<Rightarrow>
     (exc \<times> world) + ((outcome \<times> item) list \<times> bool \<times> world)" where
  "for_files current_time [] updated w = Inr ([], updated, w)"
| "for_files current_time (NonObj # rest) updated w = Inl (AttributeError, w)"
| "for_files current_time (Obj file # rest) updated w =
     (case process_file current_time w file of
        (oc, file', w') \<Rightarrow>
          (case for_files current_time rest (updated \<or> oc = Backed) w' of
             Inl x \<Rightarrow> Inl x
           | Inr (rs, updated', w'') \<Rightarrow> Inr ((oc, Obj file') # rs, updated', w'')))"

text \<open>\<^verbatim>\<open>json.dump(files, f)\<close> over the truncated store file (lines 108 and 109).\<close>

definition save :: "item list \<Rightarrow> world \<Rightarrow> world" where
  "save files w = w\<lparr>store := Parsed files, saves := Suc (saves w)\<rparr>"

text \<open>One tick; \<open>current_time\<close> is the value \<^verbatim>\<open>get_moscow_time()\<close> returns on line 38.\<close>

definition check_backups :: "instant \<Rightarrow> world \<Rightarrow> world" where
  "check_backups current_time w =
     (case store w of
        Missing \<Rightarrow> w
      | Corrupt raw \<Rightarrow> log_message (Tick_error JSONDecodeError) w
      | Parsed files \<Rightarrow>
          (case for_files current_time files False w of
             Inl (e, w') \<Rightarrow> log_message (Tick_error e) w'
           | Inr (rs, updated, w') \<Rightarrow>
               if updated then save (map snd rs) w' else w'))"

text \<open>
  The polling loop of \<^verbatim>\<open>main\<close>: it never returns, so it is run here over the
  instants of the ticks that fire, one call of \<^verbatim>\<open>check_backups\<close> each.
\<close>

fun run_ticks :: "instant list \<Rightarrow> world \<Rightarrow> world" where
  "run_ticks [] w = w"
| "run_ticks (t # ts) w = run_ticks ts (check_backups t w)"

definition main :: "instant list \<Rightarrow> world \<Rightarrow> world" where
  "main ticks w = run_ticks ticks (log_message Worker_started w)"

section \<open>The backend: \<^verbatim>\<open>upload_file\<close> and \<^verbatim>\<open>delete_file\<close>\<close>

text \<open>The dictionaries the two handlers return.\<close>

datatype reply =
    Error_min_seconds
  | Error_min_period
  | Error_exc exc
  | Error_not_found
  | File_uploaded int string
  | File_deleted

text \<open>Lines 56 to 58 of app.py: at start an absent store is created as \<^verbatim>\<open>[]\<close>.\<close>

definition startup :: "world \<Rightarrow> world" where
  "startup w = (if store w = Missing then save [] w else w)"

definition upload_failed :: "exc \<Rightarrow> world \<Rightarrow> reply \<times> world" where
  "upload_failed e w = (Error_exc e, w\<lparr>app_log := app_log w @ [Upload_error e]\<rparr>)"

text \<open>
  \<^verbatim>\<open>upload_file\<close> (lines 72 to 135) for an upload named \<open>fname\<close> with the bytes
  \<open>content\<close>; \<open>now\<close> is what \<^verbatim>\<open>get_moscow_time()\<close> returns on line 92.
\<close>

definition upload_file ::
  "string \<Rightarrow> string \<Rightarrow> int \<Rightarrow> string \<Rightarrow> instant \<Rightarrow> world \<Rightarrow> reply \<times> world" where
  "upload_file fname content pv pu now w =
     (if pu = ''seconds'' \<and> pv < 30 then (Error_min_seconds, w)
      else if pv < 1 then (Error_min_period, w)
      else
        (let file_path = ''uploads/'' @ fname in
         if io_fault w (Write_file file_path) then upload_failed OSError w
         else
           (let w1 = w\<lparr>fs := (fs w)(file_path := Some content)\<rparr> in
            (case store w1 of
               Missing \<Rightarrow> upload_failed FileNotFoundError w1
             | Corrupt raw \<Rightarrow> upload_failed JSONDecodeError w1
             | Parsed files \<Rightarrow>
                 (let file_id = int (length files) + 1 in
                  (case next_time now pv pu of
                     Inl e \<Rightarrow> upload_failed e w1
                   | Inr nb \<Rightarrow>
                       (let file_data =
                              \<lparr>id' = Some file_id,
                               filename = Some fname,
                               path = Some file_path,
                               upload_date = Some (Iso now),
                               period_value = Some pv,
                               period_unit = Some pu,
                               next_backup = Some (Iso nb),
                               last_backup = Some Null,
                               backup_count = Some 0,
                               backups_history = Some []\<rparr>;
                            w2 = save (files @ [Obj file_data]) w1
                        in (File_uploaded file_id fname,
                            w2\<lparr>app_log := app_log w2 @ [Uploaded fname pv pu]\<rparr>))))))))"

definition delete_failed :: "exc \<Rightarrow> world \<Rightarrow> reply \<times> world" where
  "delete_failed e w = (Error_exc e, w\<lparr>app_log := app_log w @ [Delete_error e]\<rparr>)"

text \<open>
  The search loop of lines 155 to 159: the first dictionary whose \<^verbatim>\<open>f["id"]\<close>
  equals \<open>file_id\<close>. Indexing raises on a dictionary without the key and on an
  element that is no dictionary.
\<close>

fun find_file :: "int \<Rightarrow> item list \<Rightarrow> exc + entry option" where
  "find_file file_id [] = Inr None"
| "find_file file_id (NonObj # rest) = Inl TypeError"
| "find_file file_id (Obj f # rest) =
     (case id' f of
        None \<Rightarrow> Inl (KeyError ''id'')
      | Some i \<Rightarrow> if i = file_id then Inr (Some f) else find_file file_id rest)"

text \<open>Line 169: \<^verbatim>\<open>[f for f in files if f["id"] != file_id]\<close>.\<close>

fun remove_id :: "int \<Rightarrow> item list \<Rightarrow> exc + item list" where
  "remove_id file_id [] = Inr []"
| "remove_id file_id (NonObj # rest) = Inl TypeError"
| "remove_id file_id (Obj f # rest) =
     (case id' f of
        None \<Rightarrow> Inl (KeyError ''id'')
      | Some i \<Rightarrow>
          (case remove_id file_id rest of
             Inl e \<Rightarrow> Inl e
           | Inr kept \<Rightarrow> Inr (if i \<noteq> file_id then Obj f # kept else kept)))"

text \<open>\<^verbatim>\<open>delete_file\<close> (lines 149 to 179).\<close>

definition delete_file :: "int \<Rightarrow> world \<Rightarrow> reply \<times> world" where
  "delete_file file_id w =
     (case store w of
        Missing \<Rightarrow> delete_failed FileNotFoundError w
      | Corrupt raw \<Rightarrow> delete_failed JSONDecodeError w
      | Parsed files \<Rightarrow>
          (case find_file file_id files of
             Inl e \<Rightarrow> delete_failed e w
           | Inr None \<Rightarrow> (Error_not_found, w)
           | Inr (Some file_to_delete) \<Rightarrow>
               (case path file_to_delete of
                  None \<Rightarrow> delete_failed (KeyError ''path'') w
                | Some p \<Rightarrow>
                    if os_path_exists w p \<and> io_fault w (Remove p)
                    then delete_failed OSError w
                    else
                      (let w1 = (if os_path_exists w p then w\<lparr>fs := (fs w)(p := None)\<rparr> else w)
                       in (case remove_id file_id files of
                             Inl e \<Rightarrow> delete_failed e w1
                           | Inr kept \<Rightarrow>
                               (let w2 = save kept w1
                                in (case filename file_to_delete of
                                      None \<Rightarrow> delete_failed (KeyError ''filename'') w2
                                    | Some fname \<Rightarrow>
                                        (File_deleted,
                                         w2\<lparr>app_log := app_log w2 @ [Deleted fname]\<rparr>))))))))"

text \<open>Requests to the backend, and the store after a sequence of them.\<close>

datatype request =
    Upload string string int string instant
  | Delete int

fun handle :: "request \<Rightarrow> world \<Rightarrow> world" where
  "handle (Upload fname content pv pu now) w = snd (upload_file fname content pv pu now w)"
| "handle (Delete file_id) w = snd (delete_file file_id w)"

fun serve :: "request list \<Rightarrow> world \<Rightarrow> world" where
  "serve [] w = w"
| "serve (r # rs) w = serve rs (handle r w)"

text \<open>The \<^verbatim>\<open>id\<close> values of the stored dictionaries, in order.\<close>

fun item_ids :: "item list \<Rightarrow> int list" where
  "item_ids [] = []"
| "item_ids (NonObj # rest) = item_ids rest"
| "item_ids (Obj f # rest) = (case id' f of None \<Rightarrow> item_ids rest | Some i \<Rightarrow> i # item_ids rest)"

definition stored_ids :: "world \<Rightarrow> int list" where
  "stored_ids w = (case store w of Parsed files \<Rightarrow> item_ids files | _ \<Rightarrow> [])"

text \<open>A world with an empty store, no files, empty logs and no failing call.\<close>

definition empty_world :: world where
  "empty_world =
     \<lparr>store = Parsed [], fs = (\<lambda>p. None), worker_log = [], app_log = [],
      copies = [], saves = 0, io_fault = (\<lambda>c. False)\<rparr>"

section \<open>Notions used to state the properties\<close>

text \<open>An entry is due when its \<^verbatim>\<open>next_backup\<close> parses to an instant not after the tick's.\<close>

definition is_due :: "instant \<Rightarrow> entry \<Rightarrow> bool" where
  "is_due current_time file =
     (case next_backup file of Some (Iso nb) \<Rightarrow> nb \<le> current_time | _ \<Rightarrow> False)"


text \<open>The dictionary after a pass that ran to line 99 and rescheduled it to \<open>t\<close>.\<close>

definition backed_up :: "instant \<Rightarrow> string \<Rightarrow> instant \<Rightarrow> entry \<Rightarrow> entry" where
  "backed_up current_time fname t file =
     (record_backup current_time fname file)\<lparr>next_backup := Some (Iso t)\<rparr>"

text \<open>The \<^verbatim>\<open>copy2\<close> calls a pass with outcome \<open>oc\<close> completed: one or none.\<close>

definition copy_of :: "instant \<Rightarrow> entry \<Rightarrow> outcome \<Rightarrow> (string \<times> string) list" where
  "copy_of current_time file oc =
     (if oc = Backed \<or> oc = Failed OverflowError
      then (case (path file, filename file) of
              (Some p, Some fname) \<Rightarrow> [(p, backup_dst current_time fname)]
            | _ \<Rightarrow> [])
      else [])"

text \<open>
  What the loop of a tick returns for the stored array: each element as the loop
  left it, with the outcome of its pass (empty when the loop does not end normally).
\<close>

definition tick_results :: "instant \<Rightarrow> world \<Rightarrow> (outcome \<times> item) list" where
  "tick_results current_time w =
     (case store w of
        Parsed files \<Rightarrow>
          (case for_files current_time files False w of
             Inr (rs, updated, w') \<Rightarrow> rs
           | Inl x \<Rightarrow> [])
      | _ \<Rightarrow> [])"

definition tick_outcomes :: "instant \<Rightarrow> world \<Rightarrow> outcome list" where
  "tick_outcomes current_time w = map fst (tick_results current_time w)"

text \<open>
  \<open>grows w w'\<close>: \<open>w'\<close> has the store, the faults and the backend log of \<open>w\<close>, and
  every file of \<open>w\<close> still exists in it.
\<close>

definition grows :: "world \<Rightarrow> world \<Rightarrow> bool" where
  "grows w w' =
     (store w' = store w \<and> saves w' = saves w \<and> io_fault w' = io_fault w \<and>
      app_log w' = app_log w \<and> (\<forall>p. fs w p \<noteq> None \<longrightarrow> fs w' p \<noteq> None))"


text \<open>The stored array, and the invariant that the count is the length of the history.\<close>

definition stored_items :: "world \<Rightarrow> item list" where
  "stored_items w = (case store w of Parsed files \<Rightarrow> files | _ \<Rightarrow> [])"







section \<open>Sample data\<close>

text \<open>The tick of 2026-11-03 12:00:05, and an instant five seconds before it.\<close>

definition t0 :: instant where "t0 = 63929304005000000"
definition t_before :: instant where "t_before = 63929304000000000"

text \<open>An entry as \<^verbatim>\<open>upload_file\<close> writes it: every 30 seconds, due since \<open>t_before\<close>.\<close>

definition report :: entry where
  "report =
     \<lparr>id' = Some 1, filename = Some ''report.txt'', path = Some ''uploads/report.txt'',
      upload_date = Some (Iso 0), period_value = Some 30, period_unit = Some ''seconds'',
      next_backup = Some (Iso t_before), last_backup = Some Null,
      backup_count = Some 0, backups_history = Some []\<rparr>"



text \<open>An entry whose source file is gone, overdue since the year 1.\<close>

definition gone :: entry where
  "gone =
     \<lparr>id' = Some 2, filename = Some ''gone.txt'', path = Some ''uploads/gone.txt'',
      upload_date = Some (Iso 0), period_value = Some 1, period_unit = Some ''hours'',
      next_backup = Some (Iso 0), last_backup = Some Null,
      backup_count = Some 0, backups_history = Some []\<rparr>"

text \<open>
  An entry with a period of four million days: \<^verbatim>\<open>timedelta(days=4000000)\<close> is
  built, and adding it to an instant of 2026 leaves the years up to 9999.
\<close>

definition memo :: entry where
  "memo =
     \<lparr>id' = Some 3, filename = Some ''notes.md'', path = Some ''uploads/notes.md'',
      upload_date = Some (Iso 0), period_value = Some 4000000, period_unit = Some ''days'',
      next_backup = Some (Iso t_before), last_backup = Some Null,
      backup_count = Some 0, backups_history = Some []\<rparr>"

definition sample_fs :: "string \<Rightarrow> string option" where
  "sample_fs p =
     (if p = ''uploads/report.txt'' then Some ''hello''
      else if p = ''uploads/notes.md'' then Some ''memo''
      else None)"

definition world_of :: "store_file \<Rightarrow> world" where
  "world_of st =
     \<lparr>store = st, fs = sample_fs, worker_log = [], app_log = [],
      copies = [], saves = 0, io_fault = (\<lambda>c. False)\<rparr>"

section \<open>One pass of the loop body\<close>

lemma next_time_overflow: "next_time now pv pu = Inl e \<Longrightarrow> e = OverflowError"
  by (auto simp: next_time_def timedelta_def add_datetime_def split: if_splits sum.splits)


lemma record_backup_period [simp]:
  "get_period_value (record_backup now fn f) = get_period_value f"
  "get_period_unit (record_backup now fn f) = get_period_unit f"
  by (simp_all add: record_backup_def get_period_value_def get_period_unit_def)

lemma record_backup_keeps [simp]:
  "filename (record_backup now fn f) = filename f"
  "path (record_backup now fn f) = path f"
  "next_backup (record_backup now fn f) = next_backup f"
  "id' (record_backup now fn f) = id' f"
  by (simp_all add: record_backup_def)


text \<open>The three ways lines 54 to 99 end.\<close>

lemma backup_file_cases:
  assumes "backup_file now w f p fn = (r, f', w')"
  shows "(r = Inl OSError \<and> f' = f \<and> w' = w)
       \<or> (r = Inl OverflowError \<and> f' = record_backup now fn f \<and> w' = copy2 p (backup_dst now fn) w
            \<and> next_time now (get_period_value f) (get_period_unit f) = Inl OverflowError
            \<and> \<not> io_fault w (Makedirs (backup_dir now)) \<and> \<not> io_fault w (Copy2 p (backup_dst now fn)))
       \<or> (\<exists>t. r = Inr Backed \<and> f' = backed_up now fn t f
            \<and> w' = log_message (Backup_created fn) (copy2 p (backup_dst now fn) w)
            \<and> next_time now (get_period_value f) (get_period_unit f) = Inr t
            \<and> \<not> io_fault w (Makedirs (backup_dir now)) \<and> \<not> io_fault w (Copy2 p (backup_dst now fn)))"
  using assms
  by (auto simp: backup_file_def Let_def backed_up_def split: if_splits sum.splits dest: next_time_overflow)

lemma try_file_cases:
  assumes "try_file now w f = (r, f', w')"
  shows "(r = Inr Not_due \<and> \<not> is_due now f \<and> f' = f \<and> w' = w)
       \<or> (\<exists>p fn. r = Inr Missing_source \<and> is_due now f \<and> path f = Some p \<and> filename f = Some fn
             \<and> fs w p = None \<and> f' = f \<and> w' = log_message (File_not_found fn) w)
       \<or> (\<exists>e. r = Inl e \<and> e \<noteq> OverflowError \<and> f' = f \<and> w' = w)
       \<or> (\<exists>p fn. r = Inl OverflowError \<and> is_due now f \<and> path f = Some p \<and> filename f = Some fn
             \<and> fs w p \<noteq> None \<and> f' = record_backup now fn f
             \<and> w' = copy2 p (backup_dst now fn) w
             \<and> next_time now (get_period_value f) (get_period_unit f) = Inl OverflowError)
       \<or> (\<exists>p fn t. r = Inr Backed \<and> is_due now f \<and> path f = Some p \<and> filename f = Some fn
             \<and> fs w p \<noteq> None \<and> f' = backed_up now fn t f
             \<and> w' = log_message (Backup_created fn) (copy2 p (backup_dst now fn) w)
             \<and> next_time now (get_period_value f) (get_period_unit f) = Inr t
             \<and> \<not> io_fault w (Makedirs (backup_dir now))
             \<and> \<not> io_fault w (Copy2 p (backup_dst now fn)))"
proof (cases "next_backup f")
  case None
  with assms show ?thesis by (auto simp: try_file_def)
next
  case (Some s)
  show ?thesis
  proof (cases s)
    case Null
    with Some assms show ?thesis by (auto simp: try_file_def)
  next
    case (Text x)
    with Some assms show ?thesis by (auto simp: try_file_def)
  next
    case (Iso nb)
    show ?thesis
    proof (cases "nb \<le> now")
      case False
      with Some Iso assms show ?thesis by (auto simp: try_file_def is_due_def)
    next
      case True
      then have due: "is_due now f" using Some Iso by (simp add: is_due_def)
      show ?thesis
      proof (cases "path f")
        case None
        with Some Iso True assms show ?thesis by (auto simp: try_file_def)
      next
        case p: (Some p)
        show ?thesis
        proof (cases "filename f")
          case None
          with p Some Iso True assms show ?thesis by (auto simp: try_file_def)
        next
          case fn: (Some fn)
          show ?thesis
          proof (cases "fs w p")
            case None
            with fn p Some Iso True assms due show ?thesis
              by (auto simp: try_file_def os_path_exists_def)
          next
            case c: (Some c)
            with fn p Some Iso True assms
            have "backup_file now w f p fn = (r, f', w')"
              by (auto simp: try_file_def os_path_exists_def)
            from backup_file_cases[OF this] show ?thesis
            proof (elim disjE exE conjE, goal_cases)
              case 1
              then show ?case by simp
            next
              case 2
              with due fn p c show ?case by simp
            next
              case (3 t)
              with due fn p c show ?case by simp
            qed
          qed
        qed
      qed
    qed
  qed
qed

text \<open>
  The six ways a pass ends, each with the dictionary and the world it leaves.
  Only the last two, which both follow a completed copy, change the dictionary.
\<close>

lemma process_file_cases:
  assumes "process_file now w f = (oc, f', w')"
  shows "(oc = Skipped \<and> \<not> is_due now f \<and> f' = f \<and> w' = w)
       \<or> (oc = Not_due \<and> \<not> is_due now f \<and> f' = f \<and> w' = w)
       \<or> (\<exists>p fn. oc = Missing_source \<and> is_due now f \<and> path f = Some p \<and> filename f = Some fn
             \<and> fs w p = None \<and> f' = f \<and> w' = log_message (File_not_found fn) w)
       \<or> (\<exists>e. oc = Failed e \<and> e \<noteq> OverflowError \<and> f' = f
             \<and> w' = log_message (Entry_error (name_of f) e) w)
       \<or> (\<exists>p fn. oc = Failed OverflowError \<and> is_due now f \<and> path f = Some p \<and> filename f = Some fn
             \<and> fs w p \<noteq> None \<and> f' = record_backup now fn f
             \<and> w' = log_message (Entry_error fn OverflowError) (copy2 p (backup_dst now fn) w)
             \<and> next_time now (get_period_value f) (get_period_unit f) = Inl OverflowError)
       \<or> (\<exists>p fn t. oc = Backed \<and> is_due now f \<and> path f = Some p \<and> filename f = Some fn
             \<and> fs w p \<noteq> None \<and> f' = backed_up now fn t f
             \<and> w' = log_message (Backup_created fn) (copy2 p (backup_dst now fn) w)
             \<and> next_time now (get_period_value f) (get_period_unit f) = Inr t
             \<and> \<not> io_fault w (Makedirs (backup_dir now))
             \<and> \<not> io_fault w (Copy2 p (backup_dst now fn)))"
proof (cases "truthy (next_backup f)")
  case False
  then have "\<not> is_due now f"
    by (auto simp: is_due_def split: option.splits jstamp.splits)
  with False assms show ?thesis by (simp add: process_file_def)
next
  case True
  obtain r g v where t: "try_file now w f = (r, g, v)" by (cases "try_file now w f") auto
  from assms True t
  have *: "(case r of
              Inl e \<Rightarrow> oc = Failed e \<and> f' = g \<and> w' = log_message (Entry_error (name_of g) e) v
            | Inr o' \<Rightarrow> oc = o' \<and> f' = g \<and> w' = v)"
    by (auto simp: process_file_def split: sum.splits)
  from try_file_cases[OF t] show ?thesis
  proof (elim disjE exE conjE, goal_cases)
    case 1
    with * show ?case by simp
  next
    case (2 p fn)
    with * show ?case by simp
  next
    case (3 e)
    with * show ?case by simp
  next
    case (4 p fn)
    with * show ?case by (simp add: name_of_def)
  next
    case (5 p fn t)
    with * show ?case by simp
  qed
qed

lemma grows_refl: "grows w w"
  by (simp add: grows_def)

lemma grows_trans: "grows a b \<Longrightarrow> grows b c \<Longrightarrow> grows a c"
  by (simp add: grows_def)

lemma grows_log_message: "grows w (log_message m w)"
  by (simp add: grows_def log_message_def)

lemma grows_copy2: "fs w p \<noteq> None \<Longrightarrow> grows w (copy2 p d w)"
  by (simp add: grows_def copy2_def)

lemma process_file_grows:
  assumes "process_file now w f = (oc, f', w')"
  shows "grows w w'"
  using process_file_cases[OF assms]
  by (elim disjE exE conjE)
     (auto intro: grows_refl grows_log_message grows_trans[OF grows_copy2 grows_log_message])

lemma process_file_copies:
  assumes "process_file now w f = (oc, f', w')"
  shows "copies w' = copies w @ copy_of now f oc"
  using process_file_cases[OF assms]
  by (elim disjE exE conjE) (simp_all add: copy_of_def log_message_def copy2_def)


text \<open>What a pass that ran to line 99 wrote into the dictionary.\<close>

lemma backed_up_fields:
  "next_backup (backed_up now fn t f) = Some (Iso t)"
  "last_backup (backed_up now fn t f) = Some (Iso now)"
  "get_backup_count (backed_up now fn t f) = get_backup_count f + 1"
  "backup_count (backed_up now fn t f) = Some (get_backup_count f + 1)"
  "get_history (backed_up now fn t f) =
     get_history f @ [\<lparr>bk_time = now, bk_filename = backup_name now fn, bk_date = strftime_date now\<rparr>]"
  "backups_history (backed_up now fn t f) =
     Some (get_history f @ [\<lparr>bk_time = now, bk_filename = backup_name now fn, bk_date = strftime_date now\<rparr>])"
  by (simp_all add: backed_up_def record_backup_def get_backup_count_def get_history_def)



section \<open>The loop over a collection of dictionaries\<close>

text \<open>
  Over dictionaries only, the loop runs to its end. Each element gets one pass, in
  a world grown from the one the tick started in; the flag ends up set exactly
  when some pass had the outcome \<open>Backed\<close>.
\<close>

lemma for_files_Obj:
  "\<exists>rs w'. for_files now (map Obj es) u w = Inr (rs, u \<or> Backed \<in> set (map fst rs), w')
      \<and> length rs = length es \<and> grows w w'
      \<and> copies w' = copies w @ concat (map2 (copy_of now) es (map fst rs))
      \<and> (\<forall>i<length es. \<exists>wi f' wi'. grows w wi
             \<and> process_file now wi (es ! i) = (fst (rs ! i), f', wi')
             \<and> snd (rs ! i) = Obj f')"
proof (induction es arbitrary: u w)
  case Nil
  show ?case by (simp add: grows_refl)
next
  case (Cons e es)
  obtain oc f' w1 where p: "process_file now w e = (oc, f', w1)"
    by (cases "process_file now w e") auto
  from Cons.IH[of "u \<or> oc = Backed" w1]
  obtain rs w' where
    r: "for_files now (map Obj es) (u \<or> oc = Backed) w1
          = Inr (rs, (u \<or> oc = Backed) \<or> Backed \<in> set (map fst rs), w')"
    and l: "length rs = length es" and g: "grows w1 w'"
    and c: "copies w' = copies w1 @ concat (map2 (copy_of now) es (map fst rs))"
    and n: "\<forall>i<length es. \<exists>wi f' wi'. grows w1 wi
             \<and> process_file now wi (es ! i) = (fst (rs ! i), f', wi')
             \<and> snd (rs ! i) = Obj f'"
    by blast
  have g1: "grows w w1" by (rule process_file_grows[OF p])
  let ?rs = "(oc, Obj f') # rs"
  have 1: "for_files now (map Obj (e # es)) u w
             = Inr (?rs, u \<or> Backed \<in> set (map fst ?rs), w')"
    using p r by auto
  have 2: "length ?rs = length (e # es)" using l by simp
  have 3: "grows w w'" by (rule grows_trans[OF g1 g])
  have 4: "copies w' = copies w @ concat (map2 (copy_of now) (e # es) (map fst ?rs))"
    using c process_file_copies[OF p] by simp
  have 5: "\<exists>wi f'' wi'. grows w wi
             \<and> process_file now wi ((e # es) ! i) = (fst (?rs ! i), f'', wi')
             \<and> snd (?rs ! i) = Obj f''" if "i < length (e # es)" for i
  proof (cases i)
    case 0
    with p grows_refl[of w] show ?thesis by auto
  next
    case (Suc j)
    with that have "j < length es" by simp
    with n obtain wi f'' wi' where "grows w1 wi"
      "process_file now wi (es ! j) = (fst (rs ! j), f'', wi')" "snd (rs ! j) = Obj f''"
      by blast
    with Suc grows_trans[OF g1] show ?thesis by auto
  qed
  from 1 2 3 4 5 show ?case by blast
qed

text \<open>
  A tick over a store that holds dictionaries only: the loop ends normally with
  \<open>tick_results\<close>, and the store is saved exactly when the flag is set.
\<close>

lemma tick_Obj:
  assumes "store w = Parsed (map Obj es)"
  shows "\<exists>w'. for_files now (map Obj es) False w
                 = Inr (tick_results now w, Backed \<in> set (tick_outcomes now w), w')
     \<and> length (tick_results now w) = length es \<and> grows w w'
     \<and> copies w' = copies w @ concat (map2 (copy_of now) es (tick_outcomes now w))
     \<and> check_backups now w
         = (if Backed \<in> set (tick_outcomes now w)
            then save (map snd (tick_results now w)) w' else w')
     \<and> (\<forall>i<length es. \<exists>wi f' wi'. grows w wi
            \<and> process_file now wi (es ! i) = (tick_outcomes now w ! i, f', wi')
            \<and> snd (tick_results now w ! i) = Obj f')"
proof -
  from for_files_Obj[of now es False w] obtain rs w' where
    r: "for_files now (map Obj es) False w = Inr (rs, False \<or> Backed \<in> set (map fst rs), w')"
    and l: "length rs = length es" and g: "grows w w'"
    and c: "copies w' = copies w @ concat (map2 (copy_of now) es (map fst rs))"
    and n: "\<forall>i<length es. \<exists>wi f' wi'. grows w wi
             \<and> process_file now wi (es ! i) = (fst (rs ! i), f', wi')
             \<and> snd (rs ! i) = Obj f'"
    by blast
  have r': "for_files now (map Obj es) False w = Inr (rs, Backed \<in> set (map fst rs), w')"
    using r by simp
  have t: "tick_results now w = rs" using assms r by (simp add: tick_results_def)
  have o: "tick_outcomes now w = map fst rs" using t by (simp add: tick_outcomes_def)
  have k: "check_backups now w
         = (if Backed \<in> set (map fst rs) then save (map snd rs) w' else w')"
    using assms r by (simp add: check_backups_def)
  have n': "\<forall>i<length es. \<exists>wi f' wi'. grows w wi
             \<and> process_file now wi (es ! i) = (map fst rs ! i, f', wi')
             \<and> snd (rs ! i) = Obj f'"
    using n l by simp
  show ?thesis
    unfolding t o
    by (rule exI[of _ w']) (intro conjI r' l g c k n')
qed


text \<open>
  The store is written exactly when the flag is set, and the flag is set exactly
  when some pass had the outcome \<open>Backed\<close>; such a pass leaves its dictionary
  different from what was loaded.
\<close>

lemma tick_save_Obj:
  assumes "store w = Parsed (map Obj es)"
  shows "\<exists>w'. for_files now (map Obj es) False w
                 = Inr (tick_results now w, Backed \<in> set (tick_outcomes now w), w')
      \<and> saves (check_backups now w)
          = (if Backed \<in> set (tick_outcomes now w) then Suc (saves w) else saves w)
      \<and> (Backed \<in> set (tick_outcomes now w) \<longrightarrow>
           store (check_backups now w) = Parsed (map snd (tick_results now w)))
      \<and> (Backed \<notin> set (tick_outcomes now w) \<longrightarrow> store (check_backups now w) = store w)
      \<and> ((\<forall>f \<in> set es. \<not> is_due now f) \<longrightarrow> Backed \<notin> set (tick_outcomes now w))
      \<and> (\<forall>i<length es. tick_outcomes now w ! i = Backed \<longrightarrow>
            snd (tick_results now w ! i) \<noteq> Obj (es ! i))
      \<and> (Backed \<in> set (tick_outcomes now w))
          = (stored_items (check_backups now w) \<noteq> stored_items w)"
proof -
  from tick_Obj[OF assms(1), of now] obtain w' where
    r: "for_files now (map Obj es) False w
                 = Inr (tick_results now w, Backed \<in> set (tick_outcomes now w), w')"
    and l: "length (tick_results now w) = length es"
    and g: "grows w w'"
    and k: "check_backups now w
         = (if Backed \<in> set (tick_outcomes now w)
            then save (map snd (tick_results now w)) w' else w')"
    and n: "\<forall>i<length es. \<exists>wi f' wi'. grows w wi
            \<and> process_file now wi (es ! i) = (tick_outcomes now w ! i, f', wi')
            \<and> snd (tick_results now w ! i) = Obj f'"
    by blast
  have gs: "saves w' = saves w" "store w' = store w" using g by (simp_all add: grows_def)
  have 1: "saves (check_backups now w)
          = (if Backed \<in> set (tick_outcomes now w) then Suc (saves w) else saves w)"
    using k gs by (simp add: save_def)
  have 2: "Backed \<in> set (tick_outcomes now w) \<longrightarrow>
           store (check_backups now w) = Parsed (map snd (tick_results now w))"
    using k by (simp add: save_def)
  have 3: "Backed \<notin> set (tick_outcomes now w) \<longrightarrow> store (check_backups now w) = store w"
    using k gs by simp
  have lo: "length (tick_outcomes now w) = length es" using l by (simp add: tick_outcomes_def)
  have 4: "(\<forall>f \<in> set es. \<not> is_due now f) \<longrightarrow> Backed \<notin> set (tick_outcomes now w)"
  proof (intro impI notI)
    assume nd: "\<forall>f \<in> set es. \<not> is_due now f" and "Backed \<in> set (tick_outcomes now w)"
    then obtain i where i: "i < length es" "tick_outcomes now w ! i = Backed"
      using lo by (metis in_set_conv_nth)
    with n obtain wi f' wi' where "process_file now wi (es ! i) = (Backed, f', wi')" by force
    from process_file_cases[OF this] have "is_due now (es ! i)" by auto
    with nd i(1) show False by simp
  qed
  have 5: "\<forall>i<length es. tick_outcomes now w ! i = Backed \<longrightarrow>
            snd (tick_results now w ! i) \<noteq> Obj (es ! i)"
  proof (intro allI impI)
    fix i assume i: "i < length es" "tick_outcomes now w ! i = Backed"
    with n obtain wi f' wi' where p: "process_file now wi (es ! i) = (Backed, f', wi')"
      and s: "snd (tick_results now w ! i) = Obj f'" by force
    from process_file_cases[OF p] obtain fname t where "f' = backed_up now fname t (es ! i)"
      by auto
    then have "get_history f' \<noteq> get_history (es ! i)" by (simp add: backed_up_fields)
    then have "f' \<noteq> es ! i" by auto
    with s show "snd (tick_results now w ! i) \<noteq> Obj (es ! i)" by simp
  qed
  have 6: "(Backed \<in> set (tick_outcomes now w))
          = (stored_items (check_backups now w) \<noteq> stored_items w)"
  proof (cases "Backed \<in> set (tick_outcomes now w)")
    case True
    then obtain i where i: "i < length es" "tick_outcomes now w ! i = Backed"
      using lo by (metis in_set_conv_nth)
    from 5 i have "snd (tick_results now w ! i) \<noteq> Obj (es ! i)" by simp
    with i(1) l have "map snd (tick_results now w) ! i \<noteq> map Obj es ! i" by simp
    then have "map snd (tick_results now w) \<noteq> map Obj es" by metis
    with True 2 assms show ?thesis by (simp add: stored_items_def)
  next
    case False
    with 3 show ?thesis by (simp add: stored_items_def)
  qed
  from r 1 2 3 4 5 6 show ?thesis by blast
qed

lemma all_Obj:
  "NonObj \<notin> set files \<Longrightarrow> \<exists>es. files = map Obj es"
proof (induction files)
  case Nil
  then show ?case by simp
next
  case (Cons x files)
  then obtain es where "files = map Obj es" by auto
  moreover from Cons.prems obtain e where "x = Obj e" by (cases x) auto
  ultimately have "x # files = map Obj (e # es)" by simp
  then show ?case by (rule exI)
qed

section \<open>Properties of a tick\<close>















text \<open>
  C6. In a tick over a store that is absent, unparsable or an array of
  dictionaries, the store is written once if the flag \<^verbatim>\<open>updated\<close> is set and not at
  all otherwise. The flag the loop returns is set exactly when some entry's pass
  ended in success, which is where line 99 marks the collection as changed; such
  an entry differs from what was loaded. So the store is written exactly when the
  stored collection after the tick differs from the one before. When no entry is
  due, or every due entry fails, no pass ends in success: the count of saves and
  the content of the store file are what they were before the tick.
\<close>

theorem save_iff_changed:
  assumes "NonObj \<notin> set (stored_items w)"
  shows "saves (check_backups now w)
          = (if Backed \<in> set (tick_outcomes now w) then Suc (saves w) else saves w)
      \<and> (Backed \<in> set (tick_outcomes now w) \<longrightarrow>
           store (check_backups now w) = Parsed (map snd (tick_results now w)))
      \<and> (Backed \<notin> set (tick_outcomes now w) \<longrightarrow> store (check_backups now w) = store w)
      \<and> (\<forall>files. store w = Parsed files \<longrightarrow>
           (\<exists>w'. for_files now files False w
                   = Inr (tick_results now w, Backed \<in> set (tick_outcomes now w), w')))
      \<and> ((\<forall>f. Obj f \<in> set (stored_items w) \<longrightarrow> \<not> is_due now f) \<longrightarrow>
           Backed \<notin> set (tick_outcomes now w))
      \<and> (\<forall>i<length (stored_items w). tick_outcomes now w ! i = Backed \<longrightarrow>
            snd (tick_results now w ! i) \<noteq> stored_items w ! i)
      \<and> (saves (check_backups now w) \<noteq> saves w)
          = (stored_items (check_backups now w) \<noteq> stored_items w)"
proof (cases "store w")
  case Missing
  then show ?thesis
    by (simp add: check_backups_def tick_outcomes_def tick_results_def stored_items_def)
next
  case (Corrupt raw)
  then show ?thesis
    by (simp add: check_backups_def tick_outcomes_def tick_results_def stored_items_def
          log_message_def)
next
  case (Parsed files)
  with assms have "NonObj \<notin> set files" by (simp add: stored_items_def)
  from all_Obj[OF this] obtain es where es: "files = map Obj es" by blast
  with Parsed have st: "store w = Parsed (map Obj es)" by simp
  have si: "stored_items w = map Obj es" using st by (simp add: stored_items_def)
  from tick_save_Obj[OF st, of now] obtain w' where
    r: "for_files now (map Obj es) False w
                 = Inr (tick_results now w, Backed \<in> set (tick_outcomes now w), w')"
    and 1: "saves (check_backups now w)
          = (if Backed \<in> set (tick_outcomes now w) then Suc (saves w) else saves w)"
    and 2: "Backed \<in> set (tick_outcomes now w) \<longrightarrow>
           store (check_backups now w) = Parsed (map snd (tick_results now w))"
    and 3: "Backed \<notin> set (tick_outcomes now w) \<longrightarrow> store (check_backups now w) = store w"
    and 4: "(\<forall>f \<in> set es. \<not> is_due now f) \<longrightarrow> Backed \<notin> set (tick_outcomes now w)"
    and 5: "\<forall>i<length es. tick_outcomes now w ! i = Backed \<longrightarrow>
            snd (tick_results now w ! i) \<noteq> Obj (es ! i)"
    and 6: "(Backed \<in> set (tick_outcomes now w))
          = (stored_items (check_backups now w) \<noteq> stored_items w)"
    by blast
  have r': "\<forall>files. store w = Parsed files \<longrightarrow>
           (\<exists>w'. for_files now files False w
                   = Inr (tick_results now w, Backed \<in> set (tick_outcomes now w), w'))"
    using r st by auto
  have d4: "(\<forall>f. Obj f \<in> set (stored_items w) \<longrightarrow> \<not> is_due now f) \<longrightarrow>
           Backed \<notin> set (tick_outcomes now w)"
    using 4 si by auto
  have d5: "\<forall>i<length (stored_items w). tick_outcomes now w ! i = Backed \<longrightarrow>
            snd (tick_results now w ! i) \<noteq> stored_items w ! i"
    using 5 si by simp
  have d6: "(saves (check_backups now w) \<noteq> saves w)
          = (stored_items (check_backups now w) \<noteq> stored_items w)"
    using 1 6 by auto
  from 1 2 3 r' d4 d5 d6 show ?thesis by blast
qed

lemma sample_tick_6:
  "Backed \<notin> set (tick_outcomes t0 (world_of (Parsed (map Obj [gone, memo]))))"
  "Backed \<in> set (tick_outcomes t0 (world_of (Parsed (map Obj [gone, report]))))"
  by code_simp+

theorem save_iff_changed_witness:
  "saves (check_backups t0 (world_of (Parsed (map Obj [gone, memo])))) = 0
   \<and> store (check_backups t0 (world_of (Parsed (map Obj [gone, memo]))))
       = Parsed (map Obj [gone, memo])
   \<and> saves (check_backups t0 (world_of (Parsed (map Obj [gone, report])))) = 1"
proof -
  let ?v = "world_of (Parsed (map Obj [gone, memo]))"
  let ?w = "world_of (Parsed (map Obj [gone, report]))"
  have hv: "NonObj \<notin> set (stored_items ?v)" by (simp add: world_of_def stored_items_def)
  have hw: "NonObj \<notin> set (stored_items ?w)" by (simp add: world_of_def stored_items_def)
  have sv: "store ?v = Parsed (map Obj [gone, memo])" by (simp add: world_of_def)
  have z: "saves ?v = 0" "saves ?w = 0" by (simp_all add: world_of_def)
  from save_iff_changed[OF hv, of t0] sample_tick_6(1) have
    a: "saves (check_backups t0 ?v) = saves ?v" "store (check_backups t0 ?v) = store ?v"
    by auto
  from save_iff_changed[OF hw, of t0] sample_tick_6(2) have
    b: "saves (check_backups t0 ?w) = Suc (saves ?w)"
    by auto
  from a b z sv show ?thesis by simp
qed

section \<open>The polling loop on an unparsable store\<close>

lemma run_ticks_corrupt:
  "store w = Corrupt raw \<Longrightarrow>
     store (run_ticks ticks w) = Corrupt raw \<and> saves (run_ticks ticks w) = saves w
     \<and> fs (run_ticks ticks w) = fs w \<and> copies (run_ticks ticks w) = copies w
     \<and> worker_log (run_ticks ticks w)
         = worker_log w @ replicate (length ticks) (Tick_error JSONDecodeError)"
proof (induction ticks arbitrary: w)
  case Nil
  then show ?case by simp
next
  case (Cons t ticks)
  let ?w = "log_message (Tick_error JSONDecodeError) w"
  have s: "check_backups t w = ?w" using Cons.prems by (simp add: check_backups_def)
  have "store ?w = Corrupt raw" using Cons.prems by (simp add: log_message_def)
  from Cons.IH[OF this] show ?case
    unfolding run_ticks.simps s by (simp add: log_message_def replicate_append_same)
qed

text \<open>
  C7. When \<^verbatim>\<open>json.load\<close> rejects the store, the tick logs one failure line and
  returns: the store file, the other files and the count of saves are as before, no
  copy is made, and the polling loop goes on to the next tick. Over any number of
  further ticks the store stays as it is, unwritten, with one log line per tick.
\<close>

theorem corrupt_store_skips_tick:
  assumes "store w = Corrupt raw"
  shows "check_backups now w = log_message (Tick_error JSONDecodeError) w
       \<and> store (check_backups now w) = store w
       \<and> saves (check_backups now w) = saves w
       \<and> fs (check_backups now w) = fs w
       \<and> run_ticks (now # ticks) w = run_ticks ticks (check_backups now w)
       \<and> store (run_ticks ticks w) = Corrupt raw
       \<and> saves (run_ticks ticks w) = saves w
       \<and> worker_log (run_ticks ticks w)
           = worker_log w @ replicate (length ticks) (Tick_error JSONDecodeError)"
  using assms run_ticks_corrupt[OF assms, of ticks]
  by (simp add: check_backups_def log_message_def)

theorem corrupt_store_skips_tick_witness:
  "store (world_of (Corrupt ''[{'')) = Corrupt ''[{''
   \<and> worker_log (check_backups t0 (world_of (Corrupt ''[{''))) = [Tick_error JSONDecodeError]
   \<and> store (run_ticks [t0, t0 + 10000000] (world_of (Corrupt ''[{''))) = Corrupt ''[{''
   \<and> saves (run_ticks [t0, t0 + 10000000] (world_of (Corrupt ''[{''))) = 0
   \<and> worker_log (run_ticks [t0, t0 + 10000000] (world_of (Corrupt ''[{'')))
       = [Tick_error JSONDecodeError, Tick_error JSONDecodeError]"
proof -
  have h: "store (world_of (Corrupt ''[{'')) = Corrupt ''[{''" by (simp add: world_of_def)
  have e: "worker_log (world_of (Corrupt ''[{'')) = []" "saves (world_of (Corrupt ''[{'')) = 0"
    by (simp_all add: world_of_def)
  from corrupt_store_skips_tick[OF h, of t0 "[t0, t0 + 10000000]"] h e show ?thesis
    by (simp add: log_message_def del: run_ticks.simps)
qed

section \<open>Registration and deletion\<close>

text \<open>
  C8. \<^verbatim>\<open>upload_file\<close> rejects a request whose period is below 1, and one in
  seconds whose period is below 30: it returns an error dictionary and leaves the
  world as it was, so no upload is written and no entry is created. A period of 10
  seconds is rejected.
\<close>

theorem upload_file_rejects_short_period:
  assumes "pv < 1 \<or> (pu = ''seconds'' \<and> pv < 30)"
  shows "upload_file fname content pv pu now w
           = (if pu = ''seconds'' \<and> pv < 30 then Error_min_seconds else Error_min_period, w)"
  using assms by (auto simp: upload_file_def)

theorem upload_file_rejects_short_period_witness:
  "upload_file ''a.txt'' ''data'' 10 ''seconds'' t0 empty_world = (Error_min_seconds, empty_world)"
  using upload_file_rejects_short_period[of 10 "''seconds''" "''a.txt''" "''data''" t0 empty_world]
  by simp

text \<open>
  C3. The \<^verbatim>\<open>id\<close> of a new entry is the length of the stored array plus one
  (line 91). After two uploads, the deletion of entry 1 and a third upload, the
  store holds two entries with the \<^verbatim>\<open>id\<close> 2: the third upload was given the
  \<^verbatim>\<open>id\<close> of an entry that is still stored.
\<close>

theorem upload_after_delete_repeats_id:
  "stored_ids (serve [Upload ''a.txt'' ''A'' 1 ''hours'' t0,
                      Upload ''b.txt'' ''B'' 1 ''hours'' t0,
                      Delete 1,
                      Upload ''c.txt'' ''C'' 1 ''hours'' t0] empty_world) = [2, 2]"
  by code_simp

text \<open>Over dictionaries that all carry an \<^verbatim>\<open>id\<close>, the search and the filter do not raise.\<close>

lemma find_file_Obj:
  "\<forall>e \<in> set es. id' e \<noteq> None \<Longrightarrow>
     find_file file_id (map Obj es) = Inr (find (\<lambda>e. id' e = Some file_id) es)"
  by (induction es) (auto split: option.splits)

lemma remove_id_Obj:
  "\<forall>e \<in> set es. id' e \<noteq> None \<Longrightarrow>
     remove_id file_id (map Obj es) = Inr (map Obj (filter (\<lambda>e. id' e \<noteq> Some file_id) es))"
  by (induction es) (auto split: option.splits)

lemma find_None_iff_no_id:
  "find (\<lambda>e. id' e = Some file_id) es = None \<longleftrightarrow> Some file_id \<notin> id' ` set es"
  by (auto simp: find_None_iff image_iff)

text \<open>
  C10. On a stored collection of entries that all carry an \<^verbatim>\<open>id\<close>:
  when no entry has the requested \<^verbatim>\<open>id\<close>, \<^verbatim>\<open>delete_file\<close> returns the error
  \<^verbatim>\<open>File not found\<close> and the world is as before (store, source files, logs); when
  the first entry with that \<^verbatim>\<open>id\<close> names a path and a filename and removing the
  path does not fail, \<^verbatim>\<open>delete_file\<close> reports the deletion, the store is written once
  without any entry of that \<^verbatim>\<open>id\<close>, and the file at that path is gone while every
  other file is as before.
\<close>

theorem delete_file_by_id:
  assumes "store w = Parsed (map Obj es)" and "\<forall>e \<in> set es. id' e \<noteq> None"
  shows "(Some file_id \<notin> id' ` set es \<longrightarrow> delete_file file_id w = (Error_not_found, w))
       \<and> (\<forall>f p fname.
            find (\<lambda>e. id' e = Some file_id) es = Some f \<and> path f = Some p
            \<and> filename f = Some fname \<and> \<not> io_fault w (Remove p) \<longrightarrow>
              fst (delete_file file_id w) = File_deleted
            \<and> store (snd (delete_file file_id w))
                = Parsed (map Obj (filter (\<lambda>e. id' e \<noteq> Some file_id) es))
            \<and> fs (snd (delete_file file_id w)) = (fs w)(p := None)
            \<and> saves (snd (delete_file file_id w)) = Suc (saves w))"
proof (intro conjI impI allI)
  assume "Some file_id \<notin> id' ` set es"
  then have "find (\<lambda>e. id' e = Some file_id) es = None"
    by (simp add: find_None_iff_no_id)
  then show "delete_file file_id w = (Error_not_found, w)"
    using assms by (simp add: delete_file_def find_file_Obj)
next
  fix f p fname
  assume a: "find (\<lambda>e. id' e = Some file_id) es = Some f \<and> path f = Some p
            \<and> filename f = Some fname \<and> \<not> io_fault w (Remove p)"
  have d: "delete_file file_id w =
       (File_deleted,
        (save (map Obj (filter (\<lambda>e. id' e \<noteq> Some file_id) es))
           (if os_path_exists w p then w\<lparr>fs := (fs w)(p := None)\<rparr> else w))
        \<lparr>app_log := app_log w @ [Deleted fname]\<rparr>)"
    using assms a
    by (simp add: delete_file_def find_file_Obj remove_id_Obj Let_def save_def)
  show "fst (delete_file file_id w) = File_deleted" using d by simp
  show "store (snd (delete_file file_id w))
                = Parsed (map Obj (filter (\<lambda>e. id' e \<noteq> Some file_id) es))"
    using d by (simp add: save_def)
  show "fs (snd (delete_file file_id w)) = (fs w)(p := None)"
    using d by (auto simp: save_def os_path_exists_def)
  show "saves (snd (delete_file file_id w)) = Suc (saves w)"
    using d by (simp add: save_def)
qed

lemma sample_delete:
  "\<forall>e \<in> set [report, gone, report]. id' e \<noteq> None"
  "Some 7 \<notin> id' ` set [report, gone, report]"
  "find (\<lambda>e. id' e = Some 1) [report, gone, report] = Some report"
  "path report = Some ''uploads/report.txt''"
  "filename report = Some ''report.txt''"
  "\<not> io_fault (world_of (Parsed (map Obj [report, gone, report]))) (Remove ''uploads/report.txt'')"
  "filter (\<lambda>e. id' e \<noteq> Some 1) [report, gone, report] = [gone]"
  by (simp_all add: report_def gone_def world_of_def)

theorem delete_file_by_id_witness:
  "delete_file 7 (world_of (Parsed (map Obj [report, gone, report])))
     = (Error_not_found, world_of (Parsed (map Obj [report, gone, report])))
   \<and> fst (delete_file 1 (world_of (Parsed (map Obj [report, gone, report])))) = File_deleted
   \<and> store (snd (delete_file 1 (world_of (Parsed (map Obj [report, gone, report])))))
       = Parsed [Obj gone]
   \<and> fs (snd (delete_file 1 (world_of (Parsed (map Obj [report, gone, report])))))
        ''uploads/report.txt'' = None
   \<and> fs (snd (delete_file 1 (world_of (Parsed (map Obj [report, gone, report])))))
        ''uploads/notes.md'' = Some ''memo''"
proof -
  let ?w = "world_of (Parsed (map Obj [report, gone, report]))"
  have h1: "store ?w = Parsed (map Obj [report, gone, report])" by (simp add: world_of_def)
  note T = delete_file_by_id[OF h1 sample_delete(1)]
  from T[of 7] sample_delete(2) have a: "delete_file 7 ?w = (Error_not_found, ?w)" by blast
  from T[of 1] sample_delete(3,4,5,6) have
    b: "fst (delete_file 1 ?w) = File_deleted"
       "store (snd (delete_file 1 ?w))
          = Parsed (map Obj (filter (\<lambda>e. id' e \<noteq> Some 1) [report, gone, report]))"
       "fs (snd (delete_file 1 ?w)) = (fs ?w)(''uploads/report.txt'' := None)"
    by blast+
  have c: "fs ?w ''uploads/notes.md'' = Some ''memo''"
    by (simp add: world_of_def sample_fs_def)
  from a b c show ?thesis unfolding sample_delete(7) by simp
qed

end
